theory Spec2Isabelle
  imports Main
begin

section \<open>The front end's types\<close>

text \<open>
  The engine of \<^verbatim>\<open>constants.cpp\<close> consumes the C front end's types and expressions
  through a handful of queries. The types are modelled by the structure those queries
  read; everything the front end computes by itself (the printed spelling of a type, the
  stable identity string, the source text of a range) is a parameter, collected in
  \<open>ast_context\<close> below.

  \<open>builtin_kind\<close> lists the front end's built-in kinds that occur in C. Four of
  them are character kinds, and they are different kinds:
  \<^item> \<open>Char_U\<close> is plain \<^verbatim>\<open>char\<close> on a target where plain char is unsigned,
  \<^item> \<open>Char_S\<close> is plain \<^verbatim>\<open>char\<close> on a target where plain char is signed,
  \<^item> \<open>UChar\<close> is \<^verbatim>\<open>unsigned char\<close>, explicitly qualified,
  \<^item> \<open>SChar\<close> is \<^verbatim>\<open>signed char\<close>, explicitly qualified.
  The kind \<^verbatim>\<open>BuiltinType::Int\<close> is written \<open>IntK\<close>, since \<open>Int\<close> is HOL's
  intersection.
\<close>

datatype builtin_kind =
    Void
  | Bool | Char_U | UChar | UShort | UInt | ULong | ULongLong | UInt128
  | Char_S | SChar | Short | IntK | Long | LongLong | Int128
  | Half | Float | Double | LongDouble | Float16 | Float128

datatype tag_kind = Struct | Union

text \<open>
  A type as written: \<open>TypedefT\<close> is the only sugar, an alias name over the type it
  stands for. A record carries its tag kind, its name and the names of its declared
  fields in order (the engine reads nothing else of a field). Qualifiers are left out:
  no query of the engine reads them.
\<close>

datatype qual_type =
    BuiltinT builtin_kind
  | PointerT qual_type
  | RecordT tag_kind string "string list"
  | EnumT string
  | ConstantArrayT qual_type nat
  | FunctionProtoT qual_type "qual_type list"
  | TypedefT string qual_type

text \<open>\<^verbatim>\<open>QualType::getCanonicalType\<close>: every alias removed, at every level.\<close>

fun getCanonicalType :: "qual_type \<Rightarrow> qual_type" where
  "getCanonicalType (BuiltinT k) = BuiltinT k"
| "getCanonicalType (PointerT t) = PointerT (getCanonicalType t)"
| "getCanonicalType (RecordT tk n fs) = RecordT tk n fs"
| "getCanonicalType (EnumT n) = EnumT n"
| "getCanonicalType (ConstantArrayT t n) = ConstantArrayT (getCanonicalType t) n"
| "getCanonicalType (FunctionProtoT r ps) =
     FunctionProtoT (getCanonicalType r) (map getCanonicalType ps)"
| "getCanonicalType (TypedefT n t) = getCanonicalType t"

text \<open>
  The category queries, each on the canonical type as the front end defines them:
  the integer kinds are \<open>Bool\<close> to \<open>Int128\<close> and the enumerations, the floating kinds
  are \<open>Half\<close> to \<open>Float128\<close>.
\<close>

fun isIntegerKind :: "builtin_kind \<Rightarrow> bool" where
  "isIntegerKind Void = False"
| "isIntegerKind Half = False"
| "isIntegerKind Float = False"
| "isIntegerKind Double = False"
| "isIntegerKind LongDouble = False"
| "isIntegerKind Float16 = False"
| "isIntegerKind Float128 = False"
| "isIntegerKind k = True"

fun isFloatingKind :: "builtin_kind \<Rightarrow> bool" where
  "isFloatingKind Half = True"
| "isFloatingKind Float = True"
| "isFloatingKind Double = True"
| "isFloatingKind LongDouble = True"
| "isFloatingKind Float16 = True"
| "isFloatingKind Float128 = True"
| "isFloatingKind k = False"

definition isIntegerType :: "qual_type \<Rightarrow> bool" where
  "isIntegerType t =
     (case getCanonicalType t of BuiltinT k \<Rightarrow> isIntegerKind k | EnumT n \<Rightarrow> True | _ \<Rightarrow> False)"

definition isFloatingType :: "qual_type \<Rightarrow> bool" where
  "isFloatingType t =
     (case getCanonicalType t of BuiltinT k \<Rightarrow> isFloatingKind k | _ \<Rightarrow> False)"

definition isPointerType :: "qual_type \<Rightarrow> bool" where
  "isPointerType t = (case getCanonicalType t of PointerT p \<Rightarrow> True | _ \<Rightarrow> False)"

definition isSpecificBuiltinType :: "qual_type \<Rightarrow> builtin_kind \<Rightarrow> bool" where
  "isSpecificBuiltinType t k =
     (case getCanonicalType t of BuiltinT k' \<Rightarrow> k' = k | _ \<Rightarrow> False)"

text \<open>
  \<^verbatim>\<open>getPointeeType\<close> is called under \<^verbatim>\<open>isPointerType\<close> only; on any other type the
  model returns the type itself.
\<close>

definition getPointeeType :: "qual_type \<Rightarrow> qual_type" where
  "getPointeeType t = (case getCanonicalType t of PointerT p \<Rightarrow> p | _ \<Rightarrow> t)"

text \<open>
  \<^verbatim>\<open>getAs<RecordType>\<close> followed by \<^verbatim>\<open>getDecl\<close>: the record behind the aliases, if the
  type is one.
\<close>

definition getAsRecordDecl :: "qual_type \<Rightarrow> (tag_kind \<times> string \<times> string list) option" where
  "getAsRecordDecl t =
     (case getCanonicalType t of RecordT tk n fs \<Rightarrow> Some (tk, n, fs) | _ \<Rightarrow> None)"

type_synonym source_location = nat

text \<open>
  What the front end computes for the engine:
  \<^item> \<open>getAsString\<close>: the printed spelling of a type as written
    (\<^verbatim>\<open>QualType::getAsString\<close>);
  \<^item> \<open>generateUSRForType\<close>: the stable identity string of a type, \<open>None\<close> when the
    generation fails (\<^verbatim>\<open>clang::index::generateUSRForType\<close> returning true);
  \<^item> \<open>getSourceText\<close>: the source text of the token range between two locations
    (\<^verbatim>\<open>Lexer::getSourceText\<close> on \<^verbatim>\<open>CharSourceRange::getTokenRange\<close>), which is
    the empty string when the range cannot be mapped to a file.
\<close>

record ast_context =
  getAsString :: "qual_type \<Rightarrow> string"
  generateUSRForType :: "qual_type \<Rightarrow> string option"
  getSourceText :: "source_location \<Rightarrow> source_location \<Rightarrow> string"

section \<open>The override registry and type resolution\<close>

text \<open>The process-wide table \<^verbatim>\<open>customTypeNames\<close>, passed explicitly.\<close>

type_synonym registry = "string \<rightharpoonup> string"

definition getUSRForType :: "ast_context \<Rightarrow> qual_type \<Rightarrow> string" where
  "getUSRForType ctx T =
     (case generateUSRForType ctx T of Some usr \<Rightarrow> usr | None \<Rightarrow> [])"

text \<open>
  \<^verbatim>\<open>normalizeTypeName\<close>. In the C++ the tests for the specific kinds are nested in
  the tests for the integer and the floating category, and a category whose inner tests
  all fail falls through to the next one; the chain below is the same decision, one
  condition per \<^verbatim>\<open>return\<close>. The last line returns the spelling of \<open>qt\<close>, the type as
  it was passed in, as the C++ does, not that of \<open>canonical\<close>.
\<close>

definition normalizeTypeName :: "ast_context \<Rightarrow> qual_type \<Rightarrow> string" where
  "normalizeTypeName ctx qt =
     (let canonical = getCanonicalType qt in
      if isIntegerType canonical \<and> isSpecificBuiltinType canonical IntK then ''i32''
      else if isIntegerType canonical \<and> isSpecificBuiltinType canonical Short then ''i16''
      else if isIntegerType canonical \<and> isSpecificBuiltinType canonical LongLong then ''i64''
      else if isIntegerType canonical \<and>
              (isSpecificBuiltinType canonical Char_U \<or> isSpecificBuiltinType canonical Char_S)
        then ''u8''
      else if isFloatingType canonical \<and> isSpecificBuiltinType canonical Float then ''f32''
      else if isFloatingType canonical \<and> isSpecificBuiltinType canonical Double then ''f64''
      else if isPointerType canonical then
        (let pointee = getCanonicalType (getPointeeType canonical) in
         if isSpecificBuiltinType pointee Char_S \<or> isSpecificBuiltinType pointee Char_U
         then ''str'' else ''anyptr'')
      else getAsString ctx qt)"

text \<open>
  \<^verbatim>\<open>resolveTypeName\<close>: the table is searched for the string \<^verbatim>\<open>getUSRForType\<close>
  returned, which is the empty string when the generation failed.
\<close>

definition resolveTypeName :: "ast_context \<Rightarrow> registry \<Rightarrow> qual_type \<Rightarrow> string" where
  "resolveTypeName ctx reg qt =
     (case reg (getUSRForType ctx qt) of
        Some name \<Rightarrow> name
      | None \<Rightarrow> normalizeTypeName ctx qt)"


text \<open>
  What the C++ leaves undefined is a fault of the model: reading an argument array past
  the count the caller passed, asking an initializer list for an element it does not
  have, and calling through a null expression.
\<close>

datatype fault = ArrayIndexOutOfRange | InitIndexOutOfRange | NullDereference

text \<open>
  \<^verbatim>\<open>set_custom_type_names\<close>: the two argument arrays are lists, \<open>count\<close> is the
  C \<^verbatim>\<open>int\<close>. The table is cleared, then the loop
  \<^verbatim>\<open>for (int i = 0; i < count; ++i) customTypeNames[usrs[i]] = names[i];\<close> runs.
\<close>

function insert_entries ::
  "string list \<Rightarrow> string list \<Rightarrow> nat \<Rightarrow> nat \<Rightarrow> registry \<Rightarrow> fault + registry" where
  "insert_entries usrs names count i reg =
     (if i < count then
        (if i < length usrs \<and> i < length names
         then insert_entries usrs names count (Suc i) (reg(usrs ! i \<mapsto> names ! i))
         else Inl ArrayIndexOutOfRange)
      else Inr reg)"
  by pat_completeness auto
termination
  by (relation "measure (\<lambda>(usrs, names, count, i, reg). count - i)") auto

declare insert_entries.simps [simp del]

definition set_custom_type_names ::
  "registry \<Rightarrow> string list \<Rightarrow> string list \<Rightarrow> int \<Rightarrow> fault + registry" where
  "set_custom_type_names reg usrs names count =
     insert_entries usrs names (nat count) 0 Map.empty"

section \<open>Expressions and the literal serializer\<close>

text \<open>
  The expression kinds the engine tells apart by \<^verbatim>\<open>dyn_cast\<close>, and \<open>OtherExpr\<close>
  for every other kind. An integer literal carries its value as the front end stores
  it: a bit width and the bits as an unsigned number. A floating literal carries the
  decimal text the front end prints for its value. The kinds that can reach the
  serializer's fallback carry their begin and end locations.
\<close>

datatype expr =
    IntegerLiteral nat nat
  | FloatingLiteral string
  | StringLiteral string
  | CompoundLiteralExpr qual_type expr
  | InitListExpr source_location source_location "expr list"
  | ImplicitCastExpr source_location source_location expr
  | OtherExpr source_location source_location

fun IgnoreImpCasts :: "expr \<Rightarrow> expr" where
  "IgnoreImpCasts (ImplicitCastExpr b e sub) = IgnoreImpCasts sub"
| "IgnoreImpCasts e = e"

text \<open>
  \<^verbatim>\<open>getSExtValue\<close>: the bits of a \<open>width\<close>-bit value read as a two's complement
  number. The result is a 64-bit integer: of a value wider than 64 bits the low 64
  bits are read (the literals of C are at most 64 bits wide).
\<close>

definition getSExtValue :: "nat \<Rightarrow> nat \<Rightarrow> int" where
  "getSExtValue width bits =
     (let w = min width 64; low = bits mod 2 ^ w
      in if 0 < w \<and> 2 ^ (w - 1) \<le> low then int low - 2 ^ w else int low)"

text \<open>\<^verbatim>\<open>std::to_string\<close> on a signed integer: decimal digits, a minus sign first.\<close>

definition digit_char :: "nat \<Rightarrow> char" where
  "digit_char d = ''0123456789'' ! (d mod 10)"

function to_string_nat :: "nat \<Rightarrow> string" where
  "to_string_nat n =
     (if n < 10 then [digit_char n] else to_string_nat (n div 10) @ [digit_char n])"
  by pat_completeness auto
termination
  by (relation "measure id") auto

declare to_string_nat.simps [simp del]

definition to_string :: "int \<Rightarrow> string" where
  "to_string v = (if v < 0 then CHR ''-'' # to_string_nat (nat (- v)) else to_string_nat (nat v))"

lemma size_IgnoreImpCasts: "size (IgnoreImpCasts e) \<le> size e"
  by (induction e rule: IgnoreImpCasts.induct) auto

lemma size_nth_less: "i < length xs \<Longrightarrow> size (xs ! i) < size_list size xs"
proof (induction xs arbitrary: i)
  case Nil
  then show ?case by simp
next
  case (Cons a xs)
  show ?case
  proof (cases i)
    case 0
    then show ?thesis by simp
  next
    case (Suc j)
    with Cons.prems have "j < length xs" by simp
    from Cons.IH[OF this] Suc show ?thesis by simp
  qed
qed

lemma size_init_less:
  "i < length inits \<Longrightarrow> IgnoreImpCasts (inits ! i) = e \<Longrightarrow> size e < size_list size inits"
  using size_IgnoreImpCasts[of "inits ! i"] size_nth_less[of i inits] by simp

text \<open>
  The serializer. \<open>compoundLiteralToNamedInit\<close> takes the compound literal as its
  type and its initializer; \<open>field_loop\<close> is the loop over \<^verbatim>\<open>rd->fields()\<close>, with
  the counter \<open>i\<close> and the text written so far; \<^verbatim>\<open>ile->getInit(i)\<close> past the end of
  the list is the fault \<open>InitIndexOutOfRange\<close> (the C++ has written the separator and
  the field name by then, which the fault discards). \<open>exprToString\<close> tries the four
  kinds in the order of the C++ and ends in the fallback.
\<close>

function compoundLiteralToNamedInit ::
    "ast_context \<Rightarrow> registry \<Rightarrow> qual_type \<Rightarrow> expr \<Rightarrow> fault + string"
  and field_loop ::
    "ast_context \<Rightarrow> registry \<Rightarrow> string list \<Rightarrow> expr list \<Rightarrow> nat \<Rightarrow> string \<Rightarrow> fault + string"
  and exprToString :: "ast_context \<Rightarrow> registry \<Rightarrow> expr \<Rightarrow> fault + string"
where
  "compoundLiteralToNamedInit ctx reg qt init =
     (case getAsRecordDecl qt of
        None \<Rightarrow> Inr ''<not a record>''
      | Some rd \<Rightarrow>
          (case init of
             InitListExpr b e inits \<Rightarrow>
               (case field_loop ctx reg (snd (snd rd)) inits 0 (resolveTypeName ctx reg qt @ ''{'') of
                  Inl f \<Rightarrow> Inl f
                | Inr out \<Rightarrow> Inr (out @ ''}''))
           | _ \<Rightarrow> Inr ''<not an init list>''))"
| "field_loop ctx reg [] inits i out = Inr out"
| "field_loop ctx reg (field_name # rest) inits i out =
     (if i < length inits then
        (case (case IgnoreImpCasts (inits ! i) of
                 CompoundLiteralExpr nqt ninit \<Rightarrow> compoundLiteralToNamedInit ctx reg nqt ninit
               | initExpr \<Rightarrow> exprToString ctx reg initExpr) of
           Inl f \<Rightarrow> Inl f
         | Inr v \<Rightarrow>
             field_loop ctx reg rest inits (Suc i)
               ((if 0 < i then out @ '', '' else out) @ field_name @ ''='' @ v))
      else Inl InitIndexOutOfRange)"
| "exprToString ctx reg (IntegerLiteral width bits) = Inr (to_string (getSExtValue width bits))"
| "exprToString ctx reg (FloatingLiteral str) = Inr str"
| "exprToString ctx reg (StringLiteral s) = Inr ([CHR 0x22] @ s @ [CHR 0x22] @ ''.ref()'')"
| "exprToString ctx reg (CompoundLiteralExpr qt init) = compoundLiteralToNamedInit ctx reg qt init"
| "exprToString ctx reg (InitListExpr b e inits) = Inr (getSourceText ctx b e)"
| "exprToString ctx reg (ImplicitCastExpr b e sub) = Inr (getSourceText ctx b e)"
| "exprToString ctx reg (OtherExpr b e) = Inr (getSourceText ctx b e)"
  by pat_completeness auto
termination
  apply (relation "measures [
     (\<lambda>x. case x of
        Inl (ctx, reg, qt, init) \<Rightarrow> size init
      | Inr (Inl (ctx, reg, fs, inits, i, out)) \<Rightarrow> size_list size inits
      | Inr (Inr (ctx, reg, e)) \<Rightarrow> size e),
     (\<lambda>x. case x of
        Inr (Inl (ctx, reg, fs, inits, i, out)) \<Rightarrow> length fs
      | _ \<Rightarrow> 0)]")
  apply simp_all
  apply (drule (1) size_init_less, simp)+
  done

declare compoundLiteralToNamedInit.simps [simp del]
declare field_loop.simps [simp del]

section \<open>The evaluation entry point\<close>

text \<open>
  The translation unit the compilation driver hands back: its context and its top-level
  declarations, of which the engine tells apart the variable declarations, by name and
  initializer (\<^verbatim>\<open>getInit\<close> is null for a variable without one). The driver itself
  (\<^verbatim>\<open>buildASTFromCodeWithArgs\<close>) is a parameter: from the code, the arguments and the
  file name to a unit, or nothing.
\<close>

datatype decl = VarDecl string "expr option" | OtherDecl

record ast_unit =
  getASTContext :: ast_context
  decls :: "decl list"

type_synonym driver = "string \<Rightarrow> string list \<Rightarrow> string \<Rightarrow> ast_unit option"

text \<open>\<^verbatim>\<open>std::string::find_last_of\<close>, \<open>None\<close> for \<^verbatim>\<open>npos\<close>.\<close>

fun find_last_of :: "string \<Rightarrow> string \<Rightarrow> nat option" where
  "find_last_of [] cs = None"
| "find_last_of (c # s) cs =
     (case find_last_of s cs of
        Some i \<Rightarrow> Some (Suc i)
      | None \<Rightarrow> if c \<in> set cs then Some 0 else None)"

text \<open>The loop \<^verbatim>\<open>for (int i = 0; i < num_args; i++) args.push_back(clang_args[i]);\<close>\<close>

function push_clang_args ::
  "string list \<Rightarrow> nat \<Rightarrow> nat \<Rightarrow> string list \<Rightarrow> fault + string list" where
  "push_clang_args clang_args num_args i args =
     (if i < num_args then
        (if i < length clang_args
         then push_clang_args clang_args num_args (Suc i) (args @ [clang_args ! i])
         else Inl ArrayIndexOutOfRange)
      else Inr args)"
  by pat_completeness auto
termination
  by (relation "measure (\<lambda>(clang_args, num_args, i, args). num_args - i)") auto

declare push_clang_args.simps [simp del]

text \<open>
  The header test reads \<^verbatim>\<open>header_path[0]\<close> and, only if that is \<^verbatim>\<open><\<close>, the last
  character; on the empty path the first read is the terminating zero.
\<close>

definition is_system_header :: "string \<Rightarrow> bool" where
  "is_system_header header_path =
     (case header_path of
        [] \<Rightarrow> False
      | c # rest \<Rightarrow> c = CHR ''<'' \<and> last header_path = CHR ''>'')"

text \<open>\<^verbatim>\<open>dyn_cast<CompoundLiteralExpr>\<close> succeeding, as a test.\<close>

fun isa_CompoundLiteralExpr :: "expr \<Rightarrow> bool" where
  "isa_CompoundLiteralExpr (CompoundLiteralExpr qt init) = True"
| "isa_CompoundLiteralExpr e = False"

text \<open>
  The result leaves the engine as a C string, copied by \<^verbatim>\<open>strcpy\<close> from
  \<^verbatim>\<open>result.c_str()\<close>: the copy ends before the first zero character of the text.
\<close>

definition strcpy_text :: "string \<Rightarrow> string" where
  "strcpy_text result = takeWhile (\<lambda>c. c \<noteq> CHR 0x00) result"

text \<open>The loop over \<^verbatim>\<open>tu->decls()\<close>, with its result assembled in place.\<close>

fun scan_decls ::
  "ast_context \<Rightarrow> registry \<Rightarrow> string \<Rightarrow> decl list \<Rightarrow> fault + string option" where
  "scan_decls ctx reg define_name [] = Inr None"
| "scan_decls ctx reg define_name (OtherDecl # ds) = scan_decls ctx reg define_name ds"
| "scan_decls ctx reg define_name (VarDecl name vinit # ds) =
     (if name = ''__dummy_var'' then
        (case vinit of
           None \<Rightarrow> Inl NullDereference
         | Some e \<Rightarrow>
             (case IgnoreImpCasts e of
                CompoundLiteralExpr qt init \<Rightarrow>
                  (case compoundLiteralToNamedInit ctx reg qt init of
                     Inl f \<Rightarrow> Inl f
                   | Inr init_str \<Rightarrow>
                       Inr (Some (strcpy_text
                         (resolveTypeName ctx reg qt @ '' '' @ define_name
                          @ '' = '' @ init_str @ '';''))))
              | _ \<Rightarrow> scan_decls ctx reg define_name ds))
      else scan_decls ctx reg define_name ds)"

text \<open>
  The two inputs the entry point assembles for the driver: the synthetic translation
  unit, and the fixed arguments followed by the include path of the header's directory
  when the path has a separator.
\<close>

definition synthetic_code :: "string \<Rightarrow> string \<Rightarrow> string" where
  "synthetic_code header_path define_name =
     ''#include '' @ [CHR 0x22] @ header_path @ [CHR 0x22, CHR 0x0A]
     @ ''const auto __dummy_var = '' @ define_name @ '';'' @ [CHR 0x0A]"

definition initial_args :: "string \<Rightarrow> string list" where
  "initial_args header_path =
     [''-x'', ''c'', ''-std=c11'']
     @ (case find_last_of header_path [CHR ''/'', CHR 0x5C] of
          Some last_slash \<Rightarrow> [''-I'' @ take last_slash header_path]
        | None \<Rightarrow> [])"

definition macro_to_named_initializer ::
  "driver \<Rightarrow> registry \<Rightarrow> string \<Rightarrow> string \<Rightarrow> string list \<Rightarrow> int \<Rightarrow> fault + string option" where
  "macro_to_named_initializer buildASTFromCodeWithArgs reg header_path define_name
       clang_args num_args =
     (if is_system_header header_path then Inr None
      else
        case push_clang_args clang_args (nat num_args) 0 (initial_args header_path) of
          Inl f \<Rightarrow> Inl f
        | Inr args \<Rightarrow>
            (case buildASTFromCodeWithArgs (synthetic_code header_path define_name) args
                    ''macro_eval.c'' of
               None \<Rightarrow> Inr None
             | Some unit \<Rightarrow> scan_decls (getASTContext unit) reg define_name (decls unit)))"

section \<open>The named-initializer text, as the specification describes it\<close>

text \<open>
  The specification describes the output of the compound-literal serializer as nested
  groups \<^verbatim>\<open>Name{f0=v0, f1=v1, ...}\<close>. The definitions of this section follow that
  description and not the code: a text is a plain value or a named group of fields,
  \<open>spec_render\<close> writes it, \<open>group_depth\<close> counts the nesting of its groups.
\<close>

datatype named_init = Value string | Group string "(string \<times> named_init) list"

fun spec_join_fields :: "string list \<Rightarrow> string" where
  "spec_join_fields [] = []"
| "spec_join_fields [x] = x"
| "spec_join_fields (x # y # r) = x @ '', '' @ spec_join_fields (y # r)"

fun spec_render :: "named_init \<Rightarrow> string" where
  "spec_render (Value text) = text"
| "spec_render (Group name items) =
     name @ ''{'' @ spec_join_fields (map (\<lambda>(f, v). f @ ''='' @ spec_render v) items) @ ''}''"

fun group_depth :: "named_init \<Rightarrow> nat" where
  "group_depth (Value text) = 0"
| "group_depth (Group name items) = Suc (foldr max (map (\<lambda>(f, v). group_depth v) items) 0)"

text \<open>The declared fields of a record type, in order; none for any other type.\<close>

definition record_fields :: "qual_type \<Rightarrow> string list" where
  "record_fields qt = (case getAsRecordDecl qt of Some rd \<Rightarrow> snd (snd rd) | None \<Rightarrow> [])"

text \<open>
  The structure the specification assigns to an initializer: implicit conversions are
  looked through; a compound literal with an initializer list is a group named by the
  resolved type, its i-th declared field paired with its i-th initializer; every other
  expression is the plain value the general serializer writes for it.
\<close>

fun spec_named_init :: "ast_context \<Rightarrow> registry \<Rightarrow> expr \<Rightarrow> named_init" where
  "spec_named_init ctx reg (ImplicitCastExpr b e sub) = spec_named_init ctx reg sub"
| "spec_named_init ctx reg (CompoundLiteralExpr qt (InitListExpr b e inits)) =
     Group (resolveTypeName ctx reg qt)
       (zip (record_fields qt) (map (spec_named_init ctx reg) inits))"
| "spec_named_init ctx reg ex =
     Value (case exprToString ctx reg ex of Inr text \<Rightarrow> text | Inl f \<Rightarrow> [])"

lemma size_in_take [termination_simp]:
  "x \<in> set (take n xs) \<Longrightarrow> size (x::expr) < Suc (Suc (size_list size xs))"
  using size_list_estimation'[of x xs "size x" size] by (auto dest: in_set_takeD)

text \<open>
  The nesting depth of a compound literal: one for the literal itself, whatever its
  type and its initializer, one more for each level of compound literal among the
  initializers of its declared fields.
\<close>

fun literal_depth :: "expr \<Rightarrow> nat" where
  "literal_depth (ImplicitCastExpr b e sub) = literal_depth sub"
| "literal_depth (CompoundLiteralExpr qt (InitListExpr b e inits)) =
     Suc (foldr max (map literal_depth (take (length (record_fields qt)) inits)) 0)"
| "literal_depth (CompoundLiteralExpr qt init) = Suc 0"
| "literal_depth ex = 0"

text \<open>
  The literals the positional correspondence is defined for: every compound literal
  reached has a record type, an initializer list, and an initializer for each declared
  field.
\<close>

fun well_formed_literal :: "expr \<Rightarrow> bool" where
  "well_formed_literal (ImplicitCastExpr b e sub) = well_formed_literal sub"
| "well_formed_literal (CompoundLiteralExpr qt (InitListExpr b e inits)) =
     (getAsRecordDecl qt \<noteq> None \<and> length (record_fields qt) \<le> length inits \<and>
      list_all well_formed_literal (take (length (record_fields qt)) inits))"
| "well_formed_literal (CompoundLiteralExpr qt init) = False"
| "well_formed_literal ex = True"

text \<open>
  The value the loop of the code computes for one initializer (the body of the loop,
  after \<^verbatim>\<open>IgnoreImpCasts\<close>), and the text it has written after a run of fields.
\<close>

definition field_value :: "ast_context \<Rightarrow> registry \<Rightarrow> expr \<Rightarrow> fault + string" where
  "field_value ctx reg init =
     (case IgnoreImpCasts init of
        CompoundLiteralExpr nqt ninit \<Rightarrow> compoundLiteralToNamedInit ctx reg nqt ninit
      | initExpr \<Rightarrow> exprToString ctx reg initExpr)"

fun fields_text :: "nat \<Rightarrow> string list \<Rightarrow> string" where
  "fields_text i [] = []"
| "fields_text i (x # xs) = (if 0 < i then '', '' else []) @ x @ fields_text (Suc i) xs"

text \<open>
  Counting braces in a text: \<open>brace_scan\<close> walks the text with the current and the
  greatest nesting depth and fails on a closing brace without an opening one;
  \<open>brace_depth\<close> is the greatest depth of a balanced text.
\<close>

fun brace_scan :: "string \<Rightarrow> nat \<Rightarrow> nat \<Rightarrow> (nat \<times> nat) option" where
  "brace_scan [] d m = Some (d, m)"
| "brace_scan (c # cs) d m =
     (if c = CHR ''{'' then brace_scan cs (Suc d) (max m (Suc d))
      else if c = CHR ''}'' then (case d of 0 \<Rightarrow> None | Suc d' \<Rightarrow> brace_scan cs d' m)
      else brace_scan cs d m)"

definition brace_depth :: "string \<Rightarrow> nat option" where
  "brace_depth s = (case brace_scan s 0 0 of Some (0, m) \<Rightarrow> Some m | _ \<Rightarrow> None)"

definition brace_free :: "string \<Rightarrow> bool" where
  "brace_free s = (CHR ''{'' \<notin> set s \<and> CHR ''}'' \<notin> set s)"

fun brace_free_init :: "named_init \<Rightarrow> bool" where
  "brace_free_init (Value text) = brace_free text"
| "brace_free_init (Group name items) =
     (brace_free name \<and> list_all (\<lambda>(f, v). brace_free f \<and> brace_free_init v) items)"

section \<open>A front end for the examples\<close>

text \<open>
  The examples below run the engine on a small front end: the spelling of the built-in
  kinds, of tags and of alias names as C writes them (pointers, arrays and function
  types in a simplified postfix form), an identity string made from the canonical
  type, and source text cut from a buffer, where a location is a 1-based offset, 0 is
  the invalid location and the token at the end location is one character long.
\<close>

fun builtin_name :: "builtin_kind \<Rightarrow> string" where
  "builtin_name Void = ''void''"
| "builtin_name Bool = ''_Bool''"
| "builtin_name Char_U = ''char''"
| "builtin_name UChar = ''unsigned char''"
| "builtin_name UShort = ''unsigned short''"
| "builtin_name UInt = ''unsigned int''"
| "builtin_name ULong = ''unsigned long''"
| "builtin_name ULongLong = ''unsigned long long''"
| "builtin_name UInt128 = ''unsigned __int128''"
| "builtin_name Char_S = ''char''"
| "builtin_name SChar = ''signed char''"
| "builtin_name Short = ''short''"
| "builtin_name IntK = ''int''"
| "builtin_name Long = ''long''"
| "builtin_name LongLong = ''long long''"
| "builtin_name Int128 = ''__int128''"
| "builtin_name Half = ''__fp16''"
| "builtin_name Float = ''float''"
| "builtin_name Double = ''double''"
| "builtin_name LongDouble = ''long double''"
| "builtin_name Float16 = ''_Float16''"
| "builtin_name Float128 = ''__float128''"

fun example_spelling :: "qual_type \<Rightarrow> string" where
  "example_spelling (BuiltinT k) = builtin_name k"
| "example_spelling (PointerT t) = example_spelling t @ '' *''"
| "example_spelling (RecordT Struct n fs) = ''struct '' @ n"
| "example_spelling (RecordT Union n fs) = ''union '' @ n"
| "example_spelling (EnumT n) = ''enum '' @ n"
| "example_spelling (ConstantArrayT t n) = example_spelling t @ ''[]''"
| "example_spelling (FunctionProtoT r ps) = example_spelling r @ '' ()''"
| "example_spelling (TypedefT n t) = n"

definition example_usr :: "qual_type \<Rightarrow> string option" where
  "example_usr t = Some (''c:'' @ example_spelling (getCanonicalType t))"

definition example_source_text :: "string \<Rightarrow> source_location \<Rightarrow> source_location \<Rightarrow> string" where
  "example_source_text buf b e =
     (if b = 0 \<or> e = 0 \<or> e < b \<or> length buf < e then []
      else take (e - b + 1) (drop (b - 1) buf))"

definition example_context :: "string \<Rightarrow> ast_context" where
  "example_context buf =
     \<lparr>getAsString = example_spelling,
      generateUSRForType = example_usr,
      getSourceText = example_source_text buf\<rparr>"


definition example_unit :: "decl list \<Rightarrow> ast_unit" where
  "example_unit ds = \<lparr>getASTContext = example_context [], decls = ds\<rparr>"

section \<open>Type resolution: what the resolver returns\<close>

lemma getCanonicalType_idem: "getCanonicalType (getCanonicalType t) = getCanonicalType t"
  by (induction t rule: getCanonicalType.induct) simp_all

lemma normalize_builtin:
  "getCanonicalType qt = BuiltinT k \<Longrightarrow>
   normalizeTypeName ctx qt =
     (if k = IntK then ''i32'' else if k = Short then ''i16'' else if k = LongLong then ''i64''
      else if k = Char_U \<or> k = Char_S then ''u8'' else if k = Float then ''f32''
      else if k = Double then ''f64'' else getAsString ctx qt)"
  by (cases k)
     (simp_all add: normalizeTypeName_def Let_def getCanonicalType_idem isIntegerType_def
        isFloatingType_def isPointerType_def isSpecificBuiltinType_def)

lemma normalize_pointer:
  "getCanonicalType qt = PointerT p \<Longrightarrow>
   normalizeTypeName ctx qt =
     (if getCanonicalType p = BuiltinT Char_S \<or> getCanonicalType p = BuiltinT Char_U then ''str'' else ''anyptr'')"
  by (auto simp add: normalizeTypeName_def Let_def getCanonicalType_idem isIntegerType_def
        isFloatingType_def isPointerType_def isSpecificBuiltinType_def getPointeeType_def
        split: qual_type.splits)

lemma canonical_pointee_canonical:
  "getCanonicalType qt = PointerT p \<Longrightarrow> getCanonicalType p = p"
  by (metis getCanonicalType.simps(2) getCanonicalType_idem qual_type.inject(2))

lemma normalize_other:
  assumes c: "getCanonicalType qt = c" and nb: "\<forall>k. c \<noteq> BuiltinT k" and np: "\<forall>p. c \<noteq> PointerT p"
  shows "normalizeTypeName ctx qt = getAsString ctx qt"
proof -
  have cc: "getCanonicalType c = c"
    using c getCanonicalType_idem[of qt] by simp
  have "\<not> isSpecificBuiltinType c k" for k
    using nb cc by (cases c) (simp_all add: isSpecificBuiltinType_def)
  moreover have "\<not> isPointerType c"
    using np cc by (cases c) (simp_all add: isPointerType_def)
  ultimately show ?thesis
    by (simp add: normalizeTypeName_def Let_def c)
qed

lemma resolve_empty: "resolveTypeName ctx Map.empty qt = normalizeTypeName ctx qt"
  by (simp add: resolveTypeName_def)

text \<open>
  C1 (as the code has it). With an empty registry, a type whose canonical form is
  \<^verbatim>\<open>int\<close> resolves to \<open>i32\<close>, \<^verbatim>\<open>short\<close> to \<open>i16\<close>, \<^verbatim>\<open>long long\<close> to \<open>i64\<close>,
  plain \<^verbatim>\<open>char\<close> (of either signedness of the target) to \<open>u8\<close>, \<^verbatim>\<open>float\<close> to \<open>f32\<close>
  and \<^verbatim>\<open>double\<close> to \<open>f64\<close>; a pointer whose canonical pointee is plain \<^verbatim>\<open>char\<close>
  resolves to \<open>str\<close> and every other pointer to \<open>anyptr\<close>. \<^verbatim>\<open>unsigned char\<close> and
  \<^verbatim>\<open>signed char\<close> are not in the table: they keep their spelling.
\<close>

theorem default_mapping_table:
  "(getCanonicalType qt = BuiltinT IntK \<longrightarrow> resolveTypeName ctx Map.empty qt = ''i32'') \<and>
   (getCanonicalType qt = BuiltinT Short \<longrightarrow> resolveTypeName ctx Map.empty qt = ''i16'') \<and>
   (getCanonicalType qt = BuiltinT LongLong \<longrightarrow> resolveTypeName ctx Map.empty qt = ''i64'') \<and>
   (getCanonicalType qt = BuiltinT Char_U \<longrightarrow> resolveTypeName ctx Map.empty qt = ''u8'') \<and>
   (getCanonicalType qt = BuiltinT Char_S \<longrightarrow> resolveTypeName ctx Map.empty qt = ''u8'') \<and>
   (getCanonicalType qt = BuiltinT Float \<longrightarrow> resolveTypeName ctx Map.empty qt = ''f32'') \<and>
   (getCanonicalType qt = BuiltinT Double \<longrightarrow> resolveTypeName ctx Map.empty qt = ''f64'') \<and>
   (\<forall>p. getCanonicalType qt = PointerT p \<longrightarrow>
        resolveTypeName ctx Map.empty qt =
          (if p = BuiltinT Char_S \<or> p = BuiltinT Char_U then ''str'' else ''anyptr'')) \<and>
   (getCanonicalType qt = BuiltinT UChar \<or> getCanonicalType qt = BuiltinT SChar \<longrightarrow>
        resolveTypeName ctx Map.empty qt = getAsString ctx qt)"
proof -
  have ptr: "resolveTypeName ctx Map.empty qt =
          (if p = BuiltinT Char_S \<or> p = BuiltinT Char_U then ''str'' else ''anyptr'')"
    if "getCanonicalType qt = PointerT p" for p
    using normalize_pointer[OF that, of ctx] canonical_pointee_canonical[OF that]
    by (simp add: resolve_empty)
  show ?thesis
    using ptr by (auto simp: resolve_empty normalize_builtin)
qed

theorem default_mapping_table_witness:
  "resolveTypeName (example_context []) Map.empty (TypedefT ''int32_t'' (BuiltinT IntK)) = ''i32'' \<and>
   resolveTypeName (example_context []) Map.empty (BuiltinT Short) = ''i16'' \<and>
   resolveTypeName (example_context []) Map.empty (TypedefT ''int64_t'' (BuiltinT LongLong)) = ''i64'' \<and>
   resolveTypeName (example_context []) Map.empty (BuiltinT Char_U) = ''u8'' \<and>
   resolveTypeName (example_context []) Map.empty (BuiltinT Char_S) = ''u8'' \<and>
   resolveTypeName (example_context []) Map.empty (BuiltinT Float) = ''f32'' \<and>
   resolveTypeName (example_context []) Map.empty (BuiltinT Double) = ''f64'' \<and>
   resolveTypeName (example_context []) Map.empty
      (PointerT (TypedefT ''gchar'' (BuiltinT Char_S))) = ''str'' \<and>
   resolveTypeName (example_context []) Map.empty (PointerT (BuiltinT Void)) = ''anyptr'' \<and>
   resolveTypeName (example_context []) Map.empty (PointerT (BuiltinT UChar)) = ''anyptr'' \<and>
   resolveTypeName (example_context []) Map.empty (BuiltinT SChar) = ''signed char''"
  using default_mapping_table [where ctx = "example_context []" and qt = "TypedefT ''int32_t'' (BuiltinT IntK)"]
    default_mapping_table [where ctx = "example_context []" and qt = "BuiltinT Short"]
    default_mapping_table [where ctx = "example_context []" and qt = "TypedefT ''int64_t'' (BuiltinT LongLong)"]
    default_mapping_table [where ctx = "example_context []" and qt = "BuiltinT Char_U"]
    default_mapping_table [where ctx = "example_context []" and qt = "BuiltinT Char_S"]
    default_mapping_table [where ctx = "example_context []" and qt = "BuiltinT Float"]
    default_mapping_table [where ctx = "example_context []" and qt = "BuiltinT Double"]
    default_mapping_table [where ctx = "example_context []" and qt = "PointerT (TypedefT ''gchar'' (BuiltinT Char_S))"]
    default_mapping_table [where ctx = "example_context []" and qt = "PointerT (BuiltinT Void)"]
    default_mapping_table [where ctx = "example_context []" and qt = "PointerT (BuiltinT UChar)"]
    default_mapping_table [where ctx = "example_context []" and qt = "BuiltinT SChar"]
  by (simp add: example_context_def)

text \<open>
  C1 as stated fails on \<^verbatim>\<open>unsigned char\<close>: the resolver tests for the two kinds of
  plain \<^verbatim>\<open>char\<close>, and \<^verbatim>\<open>unsigned char\<close> is neither, so it keeps its spelling, and a
  pointer to it is an \<open>anyptr\<close>.
\<close>

theorem unsigned_char_is_not_u8:
  "resolveTypeName (example_context []) Map.empty (BuiltinT UChar) = ''unsigned char'' \<and>
   resolveTypeName (example_context []) Map.empty (BuiltinT UChar) \<noteq> ''u8'' \<and>
   resolveTypeName (example_context []) Map.empty (PointerT (BuiltinT UChar)) \<noteq> ''str''"
  by (simp add: resolveTypeName_def normalizeTypeName_def Let_def isIntegerType_def
        isFloatingType_def isPointerType_def isSpecificBuiltinType_def getPointeeType_def
        example_context_def)

text \<open>
  C3 (as the code has it). A type that is not in the registry, whose canonical form is
  not a pointer and not one of the seven mapped built-in kinds, resolves to the
  spelling of the type as it was written, aliases included; there is no failure.
\<close>

theorem unmapped_type_keeps_written_spelling:
  assumes "reg (getUSRForType ctx qt) = None"
    and "\<forall>p. getCanonicalType qt \<noteq> PointerT p"
    and "\<forall>k \<in> set [IntK, Short, LongLong, Char_U, Char_S, Float, Double].
           getCanonicalType qt \<noteq> BuiltinT k"
  shows "resolveTypeName ctx reg qt = getAsString ctx qt"
proof -
  have "normalizeTypeName ctx qt = getAsString ctx qt"
  proof (cases "\<exists>k. getCanonicalType qt = BuiltinT k")
    case True
    then obtain k where k: "getCanonicalType qt = BuiltinT k" by blast
    with assms(3) show ?thesis by (simp add: normalize_builtin[OF k])
  next
    case False
    with assms(2) show ?thesis by (intro normalize_other[OF refl]) auto
  qed
  with assms(1) show ?thesis by (simp add: resolveTypeName_def)
qed

theorem unmapped_type_keeps_written_spelling_witness:
  "resolveTypeName (example_context []) [''c:struct Other'' \<mapsto> ''Renamed'']
      (TypedefT ''Vec'' (RecordT Struct ''Vec2'' [''x'', ''y''])) = ''Vec'' \<and>
   resolveTypeName (example_context []) [''c:struct Other'' \<mapsto> ''Renamed'']
      (EnumT ''Color'') = ''enum Color'' \<and>
   resolveTypeName (example_context []) [''c:struct Other'' \<mapsto> ''Renamed'']
      (ConstantArrayT (BuiltinT Char_S) 50) = ''char[]'' \<and>
   resolveTypeName (example_context []) [''c:struct Other'' \<mapsto> ''Renamed'']
      (BuiltinT ULong) = ''unsigned long'' \<and>
   resolveTypeName (example_context []) [''c:struct Other'' \<mapsto> ''Renamed'']
      (BuiltinT LongDouble) = ''long double''"
  using
    unmapped_type_keeps_written_spelling [where ctx = "example_context []"
      and reg = "[''c:struct Other'' \<mapsto> ''Renamed'']"
      and qt = "TypedefT ''Vec'' (RecordT Struct ''Vec2'' [''x'', ''y''])"]
    unmapped_type_keeps_written_spelling [where ctx = "example_context []"
      and reg = "[''c:struct Other'' \<mapsto> ''Renamed'']" and qt = "EnumT ''Color''"]
    unmapped_type_keeps_written_spelling [where ctx = "example_context []"
      and reg = "[''c:struct Other'' \<mapsto> ''Renamed'']"
      and qt = "ConstantArrayT (BuiltinT Char_S) 50"]
    unmapped_type_keeps_written_spelling [where ctx = "example_context []"
      and reg = "[''c:struct Other'' \<mapsto> ''Renamed'']" and qt = "BuiltinT ULong"]
    unmapped_type_keeps_written_spelling [where ctx = "example_context []"
      and reg = "[''c:struct Other'' \<mapsto> ''Renamed'']" and qt = "BuiltinT LongDouble"]
  by (simp add: example_context_def example_usr_def getUSRForType_def)

text \<open>
  C3 as stated fails twice. The fallback spells the type as written, not its canonical
  form: the alias \<open>Vec\<close> of \<^verbatim>\<open>struct Vec2\<close> resolves to \<open>Vec\<close>. And a function pointer
  is a pointer: it resolves to \<open>anyptr\<close>, not to a spelling.
\<close>

theorem alias_and_function_pointer_not_canonical_spelling:
  "resolveTypeName (example_context []) Map.empty
      (TypedefT ''Vec'' (RecordT Struct ''Vec2'' [''x'', ''y''])) = ''Vec'' \<and>
   getAsString (example_context [])
      (getCanonicalType (TypedefT ''Vec'' (RecordT Struct ''Vec2'' [''x'', ''y'']))) = ''struct Vec2'' \<and>
   resolveTypeName (example_context []) Map.empty
      (TypedefT ''Vec'' (RecordT Struct ''Vec2'' [''x'', ''y''])) \<noteq>
   getAsString (example_context [])
      (getCanonicalType (TypedefT ''Vec'' (RecordT Struct ''Vec2'' [''x'', ''y'']))) \<and>
   resolveTypeName (example_context []) Map.empty
      (TypedefT ''Handler'' (PointerT (FunctionProtoT (BuiltinT Void) [PointerT (BuiltinT Char_S)])))
     = ''anyptr'' \<and>
   resolveTypeName (example_context []) Map.empty
      (TypedefT ''Handler'' (PointerT (FunctionProtoT (BuiltinT Void) [PointerT (BuiltinT Char_S)])))
     \<noteq>
   getAsString (example_context [])
      (getCanonicalType
        (TypedefT ''Handler'' (PointerT (FunctionProtoT (BuiltinT Void) [PointerT (BuiltinT Char_S)]))))"
  by (simp add: resolveTypeName_def normalizeTypeName_def Let_def isIntegerType_def
        isFloatingType_def isPointerType_def isSpecificBuiltinType_def getPointeeType_def
        example_context_def)

text \<open>
  C4. Whenever the registry has an entry under the identity string of a type, the
  resolver returns the registered name, whatever the category of the type. The
  resolver is a total function to names: it has no failure to return.
\<close>

theorem override_takes_precedence:
  assumes "generateUSRForType ctx qt = Some usr" and "reg usr = Some name"
  shows "resolveTypeName ctx reg qt = name"
  using assms by (simp add: resolveTypeName_def getUSRForType_def)

theorem override_takes_precedence_witness:
  "resolveTypeName (example_context []) [''c:int'' \<mapsto> ''MyInt'', ''c:struct Point'' \<mapsto> ''Vec2'']
      (TypedefT ''int32_t'' (BuiltinT IntK)) = ''MyInt'' \<and>
   resolveTypeName (example_context []) [''c:int'' \<mapsto> ''MyInt'', ''c:struct Point'' \<mapsto> ''Vec2'']
      (TypedefT ''Point'' (RecordT Struct ''Point'' [''x'', ''y''])) = ''Vec2''"
  using
    override_takes_precedence [where ctx = "example_context []"
      and reg = "[''c:int'' \<mapsto> ''MyInt'', ''c:struct Point'' \<mapsto> ''Vec2'']"
      and qt = "TypedefT ''int32_t'' (BuiltinT IntK)" and usr = "''c:int''" and name = "''MyInt''"]
    override_takes_precedence [where ctx = "example_context []"
      and reg = "[''c:int'' \<mapsto> ''MyInt'', ''c:struct Point'' \<mapsto> ''Vec2'']"
      and qt = "TypedefT ''Point'' (RecordT Struct ''Point'' [''x'', ''y''])"
      and usr = "''c:struct Point''" and name = "''Vec2''"]
  by (simp add: example_context_def example_usr_def)

section \<open>The registry: bulk replacement\<close>

lemma insert_entries_total:
  "count \<le> length usrs \<Longrightarrow> count \<le> length names \<Longrightarrow>
   \<exists>r. insert_entries usrs names count i reg = Inr r"
proof (induction usrs names count i reg rule: insert_entries.induct)
  case (1 usrs names count i reg)
  show ?case
  proof (cases "i < count")
    case True
    with "1.prems" have ok: "i < length usrs \<and> i < length names" by simp
    from "1.IH"[OF True ok "1.prems"] obtain r where
      "insert_entries usrs names count (Suc i) (reg(usrs ! i \<mapsto> names ! i)) = Inr r" ..
    with True ok have "insert_entries usrs names count i reg = Inr r"
      by (subst insert_entries.simps) simp
    then show ?thesis by blast
  next
    case False
    then show ?thesis by (subst insert_entries.simps) simp
  qed
qed

lemma insert_entries_absent:
  "insert_entries usrs names count i reg = Inr r \<Longrightarrow>
   (\<forall>j. i \<le> j \<and> j < count \<longrightarrow> usrs ! j \<noteq> k) \<Longrightarrow> r k = reg k"
proof (induction usrs names count i reg rule: insert_entries.induct)
  case (1 usrs names count i reg)
  show ?case
  proof (cases "i < count")
    case True
    from "1.prems"(1) True have ok: "i < length usrs \<and> i < length names"
      by (subst (asm) insert_entries.simps) (simp split: if_splits)
    with "1.prems"(1) True
    have step: "insert_entries usrs names count (Suc i) (reg(usrs ! i \<mapsto> names ! i)) = Inr r"
      by (subst (asm) insert_entries.simps) simp
    have "r k = (reg(usrs ! i \<mapsto> names ! i)) k"
      using "1.IH"[OF True ok step] "1.prems"(2) by simp
    moreover have "usrs ! i \<noteq> k" using "1.prems"(2) True by simp
    ultimately show ?thesis by simp
  next
    case False
    with "1.prems"(1) show ?thesis by (subst (asm) insert_entries.simps) simp
  qed
qed

lemma insert_entries_last:
  "insert_entries usrs names count i reg = Inr r \<Longrightarrow> i \<le> j \<Longrightarrow> j < count \<Longrightarrow>
   (\<forall>j'. j < j' \<and> j' < count \<longrightarrow> usrs ! j' \<noteq> usrs ! j) \<Longrightarrow>
   r (usrs ! j) = Some (names ! j)"
proof (induction usrs names count i reg rule: insert_entries.induct)
  case (1 usrs names count i reg)
  from "1.prems" have True: "i < count" by simp
  from "1.prems"(1) True have ok: "i < length usrs \<and> i < length names"
    by (subst (asm) insert_entries.simps) (simp split: if_splits)
  with "1.prems"(1) True
  have step: "insert_entries usrs names count (Suc i) (reg(usrs ! i \<mapsto> names ! i)) = Inr r"
    by (subst (asm) insert_entries.simps) simp
  show ?case
  proof (cases "i = j")
    case True
    have "r (usrs ! j) = (reg(usrs ! i \<mapsto> names ! i)) (usrs ! j)"
      using insert_entries_absent[OF step, of "usrs ! j"] "1.prems"(4) True by simp
    with True show ?thesis by simp
  next
    case False
    with "1.prems"(2) have "Suc i \<le> j" by simp
    from "1.IH"[OF \<open>i < count\<close> ok step this "1.prems"(3) "1.prems"(4)] show ?thesis .
  qed
qed

lemma set_custom_type_names_single:
  "set_custom_type_names reg [k] [n] 1 = Inr [k \<mapsto> n]"
  by (simp add: set_custom_type_names_def insert_entries.simps)

text \<open>
  C5. When the counts do not exceed the arrays, two successive calls of
  \<^verbatim>\<open>set_custom_type_names\<close> both succeed; after them a key of the first call that is
  not among the keys of the second is absent, and each key of the second call maps to
  the name of its last entry.
\<close>

theorem set_custom_type_names_replaces:
  assumes "nat count_a \<le> length usrs_a" and "nat count_a \<le> length names_a"
    and "nat count_b \<le> length usrs_b" and "nat count_b \<le> length names_b"
  shows "\<exists>reg_a reg_b.
     set_custom_type_names reg usrs_a names_a count_a = Inr reg_a \<and>
     set_custom_type_names reg_a usrs_b names_b count_b = Inr reg_b \<and>
     (\<forall>k. k \<in> set (take (nat count_a) usrs_a) \<and> k \<notin> set (take (nat count_b) usrs_b)
          \<longrightarrow> reg_b k = None) \<and>
     (\<forall>j. j < nat count_b \<and> (\<forall>j'. j < j' \<and> j' < nat count_b \<longrightarrow> usrs_b ! j' \<noteq> usrs_b ! j)
          \<longrightarrow> reg_b (usrs_b ! j) = Some (names_b ! j))"
proof -
  obtain reg_a where r1: "set_custom_type_names reg usrs_a names_a count_a = Inr reg_a"
    using insert_entries_total[OF assms(1,2)] by (auto simp: set_custom_type_names_def)
  obtain reg_b where r2: "set_custom_type_names reg_a usrs_b names_b count_b = Inr reg_b"
    using insert_entries_total[OF assms(3,4)] by (auto simp: set_custom_type_names_def)
  have ins: "insert_entries usrs_b names_b (nat count_b) 0 Map.empty = Inr reg_b"
    using r2 by (simp add: set_custom_type_names_def)
  have absent: "reg_b k = None" if "k \<notin> set (take (nat count_b) usrs_b)" for k
  proof -
    have "usrs_b ! j \<noteq> k" if "j < nat count_b" for j
    proof
      assume "usrs_b ! j = k"
      moreover have "take (nat count_b) usrs_b ! j = usrs_b ! j" using that by simp
      moreover have "j < length (take (nat count_b) usrs_b)" using that assms(3) by simp
      ultimately have "k \<in> set (take (nat count_b) usrs_b)" by (metis nth_mem)
      with \<open>k \<notin> set (take (nat count_b) usrs_b)\<close> show False by simp
    qed
    then show ?thesis using insert_entries_absent[OF ins, of k] by simp
  qed
  have last: "reg_b (usrs_b ! j) = Some (names_b ! j)"
    if "j < nat count_b" and "\<forall>j'. j < j' \<and> j' < nat count_b \<longrightarrow> usrs_b ! j' \<noteq> usrs_b ! j" for j
    using insert_entries_last[OF ins _ that(1) that(2)] by simp
  from r1 r2 absent last show ?thesis by blast
qed

theorem set_custom_type_names_replaces_witness:
  "\<exists>reg_a reg_b.
     set_custom_type_names Map.empty [''c:struct A''] [''A1''] 1 = Inr reg_a \<and>
     set_custom_type_names reg_a [''c:struct B'', ''c:struct B''] [''B1'', ''B2''] 2 = Inr reg_b \<and>
     reg_a ''c:struct A'' = Some ''A1'' \<and>
     reg_b ''c:struct A'' = None \<and>
     reg_b ''c:struct B'' = Some ''B2''"
proof -
  from set_custom_type_names_replaces [where reg = Map.empty
      and usrs_a = "[''c:struct A'']" and names_a = "[''A1'']" and count_a = 1
      and usrs_b = "[''c:struct B'', ''c:struct B'']" and names_b = "[''B1'', ''B2'']" and count_b = 2]
  obtain reg_a reg_b where
    r1: "set_custom_type_names Map.empty [''c:struct A''] [''A1''] 1 = Inr reg_a" and
    r2: "set_custom_type_names reg_a [''c:struct B'', ''c:struct B''] [''B1'', ''B2''] 2 = Inr reg_b" and
    absent: "\<forall>k. k \<in> set (take (nat 1) [''c:struct A'']) \<and>
                 k \<notin> set (take (nat 2) [''c:struct B'', ''c:struct B'']) \<longrightarrow> reg_b k = None" and
    last: "\<forall>j. j < nat 2 \<and> (\<forall>j'. j < j' \<and> j' < nat 2 \<longrightarrow>
                 [''c:struct B'', ''c:struct B''] ! j' \<noteq> [''c:struct B'', ''c:struct B''] ! j)
              \<longrightarrow> reg_b ([''c:struct B'', ''c:struct B''] ! j) = Some ([''B1'', ''B2''] ! j)"
    by auto
  have a: "reg_b ''c:struct A'' = None" using absent by simp
  have "(1::nat) < nat 2 \<and> (\<forall>j'. 1 < j' \<and> j' < nat 2 \<longrightarrow>
                 [''c:struct B'', ''c:struct B''] ! j' \<noteq> [''c:struct B'', ''c:struct B''] ! 1)"
    by simp
  with last have "reg_b ([''c:struct B'', ''c:struct B''] ! 1) = Some ([''B1'', ''B2''] ! 1)"
    by blast
  then have b: "reg_b ''c:struct B'' = Some ''B2''" by simp
  have c: "reg_a ''c:struct A'' = Some ''A1''"
    using r1 by (auto simp add: set_custom_type_names_single)
  from r1 r2 a b c show ?thesis by blast
qed

text \<open>
  C6 at its failing input. When identity generation fails, \<^verbatim>\<open>getUSRForType\<close> returns
  the empty string, and the resolver looks that string up like any other key: an entry
  registered under the empty key overrides every type without an identity.
\<close>

theorem failed_identity_takes_empty_key_entry:
  "\<exists>reg. set_custom_type_names Map.empty [''''] [''Anything''] 1 = Inr reg \<and>
     generateUSRForType ((example_context [])\<lparr>generateUSRForType := \<lambda>t. None\<rparr>)
        (RecordT Struct ''Point'' [''x'', ''y'']) = None \<and>
     resolveTypeName ((example_context [])\<lparr>generateUSRForType := \<lambda>t. None\<rparr>) reg
        (RecordT Struct ''Point'' [''x'', ''y'']) = ''Anything''"
  by (simp add: set_custom_type_names_single resolveTypeName_def getUSRForType_def)

section \<open>The literal serializer\<close>

lemmas serializer_eval =
  compoundLiteralToNamedInit.simps field_loop.simps getAsRecordDecl_def
  to_string_def getSExtValue_def to_string_nat.simps digit_char_def
  resolveTypeName_def normalizeTypeName_def getUSRForType_def Let_def
  isIntegerType_def isFloatingType_def isPointerType_def isSpecificBuiltinType_def
  example_context_def example_usr_def example_source_text_def

lemma serializer_faults:
  "(compoundLiteralToNamedInit ctx reg qt init = Inl f \<longrightarrow> f = InitIndexOutOfRange)"
  "(field_loop ctx reg fs inits i out = Inl f \<longrightarrow> f = InitIndexOutOfRange)"
  "(exprToString ctx reg ex = Inl f \<longrightarrow> f = InitIndexOutOfRange)"
proof (induction ctx reg qt init and ctx reg fs inits i out and ctx reg ex
       rule: compoundLiteralToNamedInit_field_loop_exprToString.induct)
  case (1 ctx reg qt init)
  then show ?case
    by (subst compoundLiteralToNamedInit.simps)
       (auto split: option.splits expr.splits sum.splits)
next
  case (2 ctx reg inits i out)
  then show ?case by (simp add: field_loop.simps)
next
  case (3 ctx reg field_name rest inits i out)
  show ?case
  proof (cases "i < length inits")
    case False
    then show ?thesis by (simp add: field_loop.simps)
  next
    case True
    with 3 show ?thesis
      by (subst field_loop.simps) (auto split: expr.splits sum.splits)
  qed
next
  case (7 ctx reg qt init)
  then show ?case by simp
qed simp_all

lemma field_loop_too_few:
  "length inits < i + length fs \<Longrightarrow> i \<le> length inits \<Longrightarrow>
   \<exists>f. field_loop ctx reg fs inits i out = Inl f"
proof (induction fs arbitrary: i out)
  case Nil
  then show ?case by simp
next
  case (Cons field_name rest)
  show ?case
  proof (cases "i < length inits")
    case False
    then show ?thesis by (simp add: field_loop.simps)
  next
    case True
    from Cons.prems have "length inits < Suc i + length rest" by simp
    moreover from True have "Suc i \<le> length inits" by simp
    ultimately have "\<exists>f. field_loop ctx reg rest inits (Suc i) out' = Inl f" for out'
      by (rule Cons.IH)
    with True show ?thesis
      by (subst field_loop.simps) (auto split: sum.splits)
  qed
qed

text \<open>
  C7. A compound literal whose type is not a record type serializes to the marker
  \<^verbatim>\<open><not a record>\<close>, and one of record type whose initializer is not an initializer
  list to the different marker \<^verbatim>\<open><not an init list>\<close>; both are results, not faults.
\<close>

theorem sentinel_markers:
  "((\<forall>tk n fs. getCanonicalType qt \<noteq> RecordT tk n fs) \<longrightarrow>
       compoundLiteralToNamedInit ctx reg qt init = Inr ''<not a record>'') \<and>
   ((\<exists>tk n fs. getCanonicalType qt = RecordT tk n fs) \<and> (\<forall>b e inits. init \<noteq> InitListExpr b e inits) \<longrightarrow>
       compoundLiteralToNamedInit ctx reg qt init = Inr ''<not an init list>'') \<and>
   ''<not a record>'' \<noteq> ''<not an init list>''"
  by (subst compoundLiteralToNamedInit.simps, subst compoundLiteralToNamedInit.simps)
     (auto simp: getAsRecordDecl_def split: qual_type.splits expr.splits)

theorem sentinel_markers_witness:
  "compoundLiteralToNamedInit (example_context []) Map.empty (BuiltinT IntK)
     (InitListExpr 6 8 [IntegerLiteral 32 5]) = Inr ''<not a record>'' \<and>
   compoundLiteralToNamedInit (example_context []) Map.empty (BuiltinT IntK)
     (OtherExpr 6 8) = Inr ''<not a record>'' \<and>
   compoundLiteralToNamedInit (example_context []) Map.empty
     (TypedefT ''Point'' (RecordT Struct ''Point'' [''x'', ''y''])) (OtherExpr 8 10)
     = Inr ''<not an init list>''"
  using sentinel_markers [where ctx = "example_context []" and reg = Map.empty
      and qt = "BuiltinT IntK" and init = "InitListExpr 6 8 [IntegerLiteral 32 5]"]
    sentinel_markers [where ctx = "example_context []" and reg = Map.empty
      and qt = "BuiltinT IntK" and init = "OtherExpr 6 8"]
    sentinel_markers [where ctx = "example_context []" and reg = Map.empty
      and qt = "TypedefT ''Point'' (RecordT Struct ''Point'' [''x'', ''y''])"
      and init = "OtherExpr 8 10"]
  by simp

text \<open>
  C9 (as the code has it). For an expression of any other kind the serializer returns
  exactly the text the front end reports for the token range between the expression's
  begin and end locations, and never a fault. The text is not empty whenever the
  reported text is not.
\<close>

theorem fallback_returns_reported_text:
  "exprToString ctx reg (OtherExpr b e) = Inr (getSourceText ctx b e) \<and>
   exprToString ctx reg (InitListExpr b e inits) = Inr (getSourceText ctx b e) \<and>
   exprToString ctx reg (ImplicitCastExpr b e sub) = Inr (getSourceText ctx b e) \<and>
   (getSourceText ctx b e \<noteq> [] \<longrightarrow>
      exprToString ctx reg (OtherExpr b e) \<noteq> Inr [] \<and>
      exprToString ctx reg (InitListExpr b e inits) \<noteq> Inr [] \<and>
      exprToString ctx reg (ImplicitCastExpr b e sub) \<noteq> Inr [])"
  by simp

theorem fallback_returns_reported_text_witness:
  "getSourceText (example_context ''(Point){1+2, 3}'') 9 11 = ''1+2'' \<and>
   exprToString (example_context ''(Point){1+2, 3}'') Map.empty (OtherExpr 9 11) = Inr ''1+2'' \<and>
   exprToString (example_context ''(Point){1+2, 3}'') Map.empty (OtherExpr 9 11) \<noteq> Inr []"
  using fallback_returns_reported_text [where ctx = "example_context ''(Point){1+2, 3}''"
      and reg = Map.empty and b = 9 and e = 11]
  by (simp add: example_context_def example_source_text_def)

text \<open>
  C9 as stated fails where the front end has no text for the range: the value the front
  end supplies for a field that the initializer list leaves out has invalid locations,
  the reported text is empty, and the serializer returns the empty string.
\<close>

theorem implicit_value_has_empty_text:
  "exprToString (example_context ''(Point){1}'') Map.empty (OtherExpr 0 0) = Inr [] \<and>
   compoundLiteralToNamedInit (example_context ''(Point){1}'') Map.empty
     (TypedefT ''Point'' (RecordT Struct ''Point'' [''x'', ''y'']))
     (InitListExpr 8 10 [IntegerLiteral 32 1, OtherExpr 0 0]) = Inr ''Point{x=1, y=}''"
  by (simp add: serializer_eval)

text \<open>
  C10. The loop asks the initializer list for one element per declared field, without
  a check: a compound literal of a record with more declared fields than the list has
  elements reads past the end of the list.
\<close>

theorem too_few_initializers_fault:
  assumes "getCanonicalType qt = RecordT tk n fs" and "length inits < length fs"
  shows "compoundLiteralToNamedInit ctx reg qt (InitListExpr b e inits) = Inl InitIndexOutOfRange"
proof -
  from assms(2) have "length inits < 0 + length fs" by simp
  from field_loop_too_few[OF this] obtain f where
    f: "field_loop ctx reg fs inits 0 (resolveTypeName ctx reg qt @ ''{'') = Inl f" by blast
  with serializer_faults(2)[of ctx reg fs inits 0 "resolveTypeName ctx reg qt @ ''{''" f]
  have "f = InitIndexOutOfRange" by simp
  with f assms(1) show ?thesis
    by (subst compoundLiteralToNamedInit.simps) (simp add: getAsRecordDecl_def)
qed

theorem too_few_initializers_fault_witness:
  "getCanonicalType (TypedefT ''Data'' (RecordT Union ''Data'' [''i'', ''f'', ''str'']))
     = RecordT Union ''Data'' [''i'', ''f'', ''str''] \<and>
   length [IntegerLiteral 32 1] < length [''i'', ''f'', ''str''] \<and>
   compoundLiteralToNamedInit (example_context []) Map.empty
     (TypedefT ''Data'' (RecordT Union ''Data'' [''i'', ''f'', ''str'']))
     (InitListExpr 7 9 [IntegerLiteral 32 1]) = Inl InitIndexOutOfRange"
  using too_few_initializers_fault [where ctx = "example_context []" and reg = Map.empty
      and qt = "TypedefT ''Data'' (RecordT Union ''Data'' [''i'', ''f'', ''str''])"
      and tk = Union and n = "''Data''" and fs = "[''i'', ''f'', ''str'']"
      and inits = "[IntegerLiteral 32 1]" and b = 7 and e = 9]
  by simp

section \<open>Nested compound literals\<close>

lemma field_loop_step:
  "field_loop ctx reg (field_name # rest) inits i out =
     (if i < length inits then
        (case field_value ctx reg (inits ! i) of
           Inl f \<Rightarrow> Inl f
         | Inr v \<Rightarrow>
             field_loop ctx reg rest inits (Suc i)
               ((if 0 < i then out @ '', '' else out) @ field_name @ ''='' @ v))
      else Inl InitIndexOutOfRange)"
  by (simp add: field_loop.simps field_value_def)

lemma fields_text_positive:
  "0 < i \<Longrightarrow> fields_text i xs = concat (map (\<lambda>x. '', '' @ x) xs)"
  by (induction xs arbitrary: i) simp_all

lemma join_fields_fields_text: "spec_join_fields xs = fields_text 0 xs"
  by (induction xs rule: spec_join_fields.induct) (simp_all add: fields_text_positive)

lemma field_loop_render:
  assumes "i + length fs \<le> length inits"
    and "\<forall>j. i \<le> j \<and> j < i + length fs \<longrightarrow> field_value ctx reg (inits ! j) = Inr (txt (inits ! j))"
  shows "field_loop ctx reg fs inits i out =
           Inr (out @ fields_text i (map2 (\<lambda>f x. f @ ''='' @ txt x) fs (drop i inits)))"
  using assms
proof (induction fs arbitrary: i out)
  case Nil
  then show ?case by (simp add: field_loop.simps)
next
  case (Cons field_name rest)
  from Cons.prems(1) have il: "i < length inits" by simp
  have v: "field_value ctx reg (inits ! i) = Inr (txt (inits ! i))"
    using Cons.prems(2) by simp
  have bound: "Suc i + length rest \<le> length inits" using Cons.prems(1) by simp
  have vals: "\<forall>j. Suc i \<le> j \<and> j < Suc i + length rest \<longrightarrow>
      field_value ctx reg (inits ! j) = Inr (txt (inits ! j))"
    using Cons.prems(2) by simp
  have dr: "drop i inits = inits ! i # drop (Suc i) inits"
    using il by (simp add: Cons_nth_drop_Suc)
  show ?case
    by (simp add: field_loop_step il v Cons.IH[OF bound vals] dr)
qed

lemma IgnoreImpCasts_not_cast: "IgnoreImpCasts ex \<noteq> ImplicitCastExpr b e sub"
  by (induction ex rule: IgnoreImpCasts.induct) simp_all

lemma named_init_of_IgnoreImpCasts:
  "spec_named_init ctx reg (IgnoreImpCasts ex) = spec_named_init ctx reg ex"
  by (induction ex rule: IgnoreImpCasts.induct) simp_all

lemma well_formed_literal_IgnoreImpCasts:
  "well_formed_literal (IgnoreImpCasts ex) = well_formed_literal ex"
  by (induction ex rule: IgnoreImpCasts.induct) simp_all

lemma map2_map_right: "map2 h xs (map g ys) = map2 (\<lambda>x y. h x (g y)) xs ys"
  by (simp add: zip_map2 case_prod_unfold)

lemma literal_text:
  assumes wf: "getAsRecordDecl qt \<noteq> None" "length (record_fields qt) \<le> length inits"
    and vals: "\<forall>j < length (record_fields qt).
                 field_value ctx reg (inits ! j) = Inr (spec_render (spec_named_init ctx reg (inits ! j)))"
  shows "compoundLiteralToNamedInit ctx reg qt (InitListExpr b e inits) =
           Inr (spec_render (spec_named_init ctx reg (CompoundLiteralExpr qt (InitListExpr b e inits))))"
proof -
  from wf(1) obtain rd where rd: "getAsRecordDecl qt = Some rd" by auto
  then have fs: "snd (snd rd) = record_fields qt" by (simp add: record_fields_def)
  have loop: "field_loop ctx reg (record_fields qt) inits 0 out =
      Inr (out @ fields_text 0
            (map2 (\<lambda>f x. f @ ''='' @ spec_render (spec_named_init ctx reg x)) (record_fields qt) (drop 0 inits)))"
    for out
    using wf(2) vals by (intro field_loop_render) auto
  show ?thesis
    by (subst compoundLiteralToNamedInit.simps)
       (simp add: rd fs loop map2_map_right join_fields_fields_text)
qed

lemma serialize_well_formed:
  "well_formed_literal ex \<Longrightarrow>
   field_value ctx reg ex = Inr (spec_render (spec_named_init ctx reg ex))"
proof (induction ex rule: measure_induct_rule[of size])
  case (less ex)
  define ex' where "ex' = IgnoreImpCasts ex"
  have wf': "well_formed_literal ex'"
    using less.prems by (simp add: ex'_def well_formed_literal_IgnoreImpCasts)
  have g': "spec_named_init ctx reg ex' = spec_named_init ctx reg ex"
    by (simp add: ex'_def named_init_of_IgnoreImpCasts)
  have sz: "size ex' \<le> size ex" by (simp add: ex'_def size_IgnoreImpCasts)
  have fv: "field_value ctx reg ex =
      (case ex' of
         CompoundLiteralExpr nqt ninit \<Rightarrow> compoundLiteralToNamedInit ctx reg nqt ninit
       | initExpr \<Rightarrow> exprToString ctx reg initExpr)"
    by (simp add: field_value_def ex'_def)
  show ?case
  proof (cases ex')
    case (CompoundLiteralExpr qt init)
    with wf' obtain b e inits where init: "init = InitListExpr b e inits"
      by (cases init) simp_all
    from wf' have rec: "getAsRecordDecl qt \<noteq> None"
      and len: "length (record_fields qt) \<le> length inits"
      and all: "list_all well_formed_literal (take (length (record_fields qt)) inits)"
      by (simp_all add: CompoundLiteralExpr init)
    have vals: "\<forall>j < length (record_fields qt).
        field_value ctx reg (inits ! j) = Inr (spec_render (spec_named_init ctx reg (inits ! j)))"
    proof (intro allI impI)
      fix j assume j: "j < length (record_fields qt)"
      with len have jl: "j < length inits" by simp
      have "size (inits ! j) < size_list size inits" using jl by (rule size_nth_less)
      then have "size (inits ! j) < size ex" using sz by (simp add: CompoundLiteralExpr init)
      moreover have "well_formed_literal (inits ! j)"
        using all j jl by (simp add: list_all_length)
      ultimately show "field_value ctx reg (inits ! j)
          = Inr (spec_render (spec_named_init ctx reg (inits ! j)))"
        by (rule less.IH)
    qed
    have "field_value ctx reg ex = compoundLiteralToNamedInit ctx reg qt init"
      unfolding fv by (simp add: CompoundLiteralExpr)
    also have "\<dots> = Inr (spec_render (spec_named_init ctx reg ex'))"
      unfolding init CompoundLiteralExpr by (rule literal_text[OF rec len vals])
    finally show ?thesis by (simp add: g')
  next
    case (ImplicitCastExpr b e sub)
    then show ?thesis using IgnoreImpCasts_not_cast[of ex b e sub] by (simp add: ex'_def)
  next
    case (IntegerLiteral width bits)
    then show ?thesis unfolding fv g'[symmetric] by simp
  next
    case (FloatingLiteral str)
    then show ?thesis unfolding fv g'[symmetric] by simp
  next
    case (StringLiteral str)
    then show ?thesis unfolding fv g'[symmetric] by simp
  next
    case (InitListExpr b e inits)
    then show ?thesis unfolding fv g'[symmetric] by simp
  next
    case (OtherExpr b e)
    then show ?thesis unfolding fv g'[symmetric] by simp
  qed
qed

lemma group_depth_spec_named_init:
  "well_formed_literal ex \<Longrightarrow> group_depth (spec_named_init ctx reg ex) = literal_depth ex"
proof (induction ctx reg ex rule: spec_named_init.induct)
  case (2 ctx reg qt b e inits)
  from "2.prems" have wf: "list_all well_formed_literal (take (length (record_fields qt)) inits)"
    by simp
  have "map (\<lambda>(f, v). group_depth v) (zip (record_fields qt) (map (spec_named_init ctx reg) inits))
      = map group_depth (map snd (zip (record_fields qt) (map (spec_named_init ctx reg) inits)))"
    by (simp add: case_prod_unfold)
  also have "map snd (zip (record_fields qt) (map (spec_named_init ctx reg) inits))
      = take (length (record_fields qt)) (map (spec_named_init ctx reg) inits)"
    by (cases "length (record_fields qt) \<le> length inits") (simp_all add: map_snd_zip_take)
  also have "map group_depth (take (length (record_fields qt)) (map (spec_named_init ctx reg) inits))
      = map literal_depth (take (length (record_fields qt)) inits)"
  proof -
    have "group_depth (spec_named_init ctx reg x) = literal_depth x"
      if x: "x \<in> set (take (length (record_fields qt)) inits)" for x
    proof -
      from x have "x \<in> set inits" by (rule in_set_takeD)
      moreover from x wf have "well_formed_literal x" by (simp add: list_all_iff)
      ultimately show ?thesis by (rule "2.IH")
    qed
    then show ?thesis by (simp add: take_map)
  qed
  finally show ?case by simp
qed simp_all

lemma brace_scan_append:
  "brace_scan (xs @ ys) d m =
     (case brace_scan xs d m of None \<Rightarrow> None | Some (d', m') \<Rightarrow> brace_scan ys d' m')"
  by (induction xs d m rule: brace_scan.induct) (simp_all split: nat.splits)

lemma brace_scan_free: "brace_free xs \<Longrightarrow> brace_scan xs d m = Some (d, m)"
  by (induction xs) (auto simp: brace_free_def)

lemma brace_scan_items:
  assumes "\<forall>(f, v) \<in> set items. brace_free f \<and>
             (\<forall>m'. d \<le> m' \<longrightarrow>
                brace_scan (spec_render v) d m' = Some (d, max m' (d + group_depth v)))"
    and "d \<le> m"
  shows "brace_scan (fields_text i (map (\<lambda>(f, v). f @ ''='' @ spec_render v) items)) d m
           = Some (d, max m (d + foldr max (map (\<lambda>(f, v). group_depth v) items) 0))"
  using assms
proof (induction items arbitrary: i m)
  case Nil
  then show ?case by (simp add: max_def)
next
  case (Cons item items)
  obtain f v where item: "item = (f, v)" by (cases item)
  from Cons.prems item have f: "brace_free f"
    and v: "brace_scan (spec_render v) d m = Some (d, max m (d + group_depth v))"
    by auto
  let ?m = "max m (d + group_depth v)"
  let ?K = "foldr max (map (\<lambda>(f, v). group_depth v) items) 0"
  have "d \<le> ?m" using Cons.prems(2) by simp
  with Cons.prems(1)
  have rest: "brace_scan (fields_text (Suc i) (map (\<lambda>(f, v). f @ ''='' @ spec_render v) items)) d ?m
           = Some (d, max ?m (d + ?K))"
    by (intro Cons.IH) auto
  have sep: "brace_scan (if 0 < i then '', '' else []) d m = Some (d, m)"
    by (rule brace_scan_free) (simp add: brace_free_def)
  have eq: "brace_scan ''='' d m = Some (d, m)"
    by (rule brace_scan_free) (simp add: brace_free_def)
  have "fields_text i (map (\<lambda>(f, v). f @ ''='' @ spec_render v) (item # items))
      = (if 0 < i then '', '' else []) @ f @ ''='' @ spec_render v
        @ fields_text (Suc i) (map (\<lambda>(f, v). f @ ''='' @ spec_render v) items)"
    by (simp add: item)
  then have "brace_scan (fields_text i (map (\<lambda>(f, v). f @ ''='' @ spec_render v) (item # items))) d m
      = Some (d, max ?m (d + ?K))"
    by (simp only: brace_scan_append sep brace_scan_free[OF f] eq v rest option.case prod.case)
  moreover have "max ?m (d + ?K) = max m (d + max (group_depth v) ?K)"
    by (simp add: max_def)
  ultimately show ?case by (simp add: item)
qed

lemma brace_scan_render:
  "brace_free_init t \<Longrightarrow> d \<le> m \<Longrightarrow>
   brace_scan (spec_render t) d m = Some (d, max m (d + group_depth t))"
proof (induction t arbitrary: d m)
  case (Value str)
  then show ?case by (simp add: brace_scan_free max_def)
next
  case (Group name items)
  have items: "\<forall>(f, v) \<in> set items. brace_free f \<and>
             (\<forall>m'. Suc d \<le> m' \<longrightarrow>
                brace_scan (spec_render v) (Suc d) m' = Some (Suc d, max m' (Suc d + group_depth v)))"
  proof (clarify, intro conjI allI impI)
    fix f v m' assume fv: "(f, v) \<in> set items"
    with Group.prems show "brace_free f" by (auto simp: list_all_iff)
    assume m': "Suc d \<le> m'"
    from fv Group.prems have "brace_free_init v" by (auto simp: list_all_iff)
    with fv m' show "brace_scan (spec_render v) (Suc d) m' = Some (Suc d, max m' (Suc d + group_depth v))"
      by (intro Group.IH[of "(f, v)" v]) simp_all
  qed
  from Group.prems have name: "brace_free name" by simp
  have "brace_scan (spec_render (Group name items)) d m
      = (case brace_scan (fields_text 0 (map (\<lambda>(f, v). f @ ''='' @ spec_render v) items))
                (Suc d) (max m (Suc d)) of
           None \<Rightarrow> None | Some (d', m') \<Rightarrow> brace_scan ''}'' d' m')"
    by (simp add: brace_scan_append brace_scan_free[OF name] join_fields_fields_text)
  also have "\<dots> = Some (d, max (max m (Suc d))
        (Suc d + foldr max (map (\<lambda>(f, v). group_depth v) items) 0))"
  proof -
    have "brace_scan (fields_text 0 (map (\<lambda>(f, v). f @ ''='' @ spec_render v) items))
            (Suc d) (max m (Suc d))
        = Some (Suc d, max (max m (Suc d))
            (Suc d + foldr max (map (\<lambda>(f, v). group_depth v) items) 0))"
      by (rule brace_scan_items[OF items]) simp
    then show ?thesis by (simp only: option.case prod.case) simp
  qed
  finally show ?case by (simp add: max_def)
qed

lemma brace_depth_render:
  "brace_free_init t \<Longrightarrow> brace_depth (spec_render t) = Some (group_depth t)"
  by (simp add: brace_depth_def brace_scan_render)

lemmas literal_eval =
  getAsRecordDecl_def record_fields_def
  to_string_def getSExtValue_def to_string_nat.simps digit_char_def
  resolveTypeName_def normalizeTypeName_def getUSRForType_def Let_def
  isIntegerType_def isFloatingType_def isPointerType_def isSpecificBuiltinType_def
  example_context_def example_usr_def example_source_text_def
  brace_depth_def brace_free_def

text \<open>
  C2 (as the code has it). For a compound literal in which every compound literal
  reached has a record type and an initializer list with an initializer for each
  declared field, the serializer
  returns the text of the group structure of the literal: the resolved name, then in braces
  the declared fields in order, the i-th field with the value of the i-th initializer,
  as \<^verbatim>\<open>field=value\<close> joined by commas. The groups of that structure nest exactly as
  deep as the literal, and when no name and no plain value contains a brace, the
  braces of the text are balanced and nest exactly that deep.
\<close>

theorem nested_literal_rendering:
  assumes "lit = CompoundLiteralExpr qt (InitListExpr b e inits)"
    and "well_formed_literal lit"
  shows "\<exists>text.
     compoundLiteralToNamedInit ctx reg qt (InitListExpr b e inits) = Inr text \<and>
     text = spec_render (spec_named_init ctx reg lit) \<and>
     spec_named_init ctx reg lit =
       Group (resolveTypeName ctx reg qt)
         (zip (record_fields qt) (map (spec_named_init ctx reg) inits)) \<and>
     (\<forall>j < length (record_fields qt).
        field_value ctx reg (inits ! j) = Inr (spec_render (spec_named_init ctx reg (inits ! j)))) \<and>
     group_depth (spec_named_init ctx reg lit) = literal_depth lit \<and>
     (brace_free_init (spec_named_init ctx reg lit) \<longrightarrow>
        brace_depth text = Some (literal_depth lit))"
proof -
  from assms have rec: "getAsRecordDecl qt \<noteq> None"
    and len: "length (record_fields qt) \<le> length inits"
    and all: "list_all well_formed_literal (take (length (record_fields qt)) inits)"
    by simp_all
  have vals: "\<forall>j < length (record_fields qt).
      field_value ctx reg (inits ! j) = Inr (spec_render (spec_named_init ctx reg (inits ! j)))"
  proof (intro allI impI)
    fix j assume j: "j < length (record_fields qt)"
    with len all have "well_formed_literal (inits ! j)" by (simp add: list_all_length)
    then show "field_value ctx reg (inits ! j) = Inr (spec_render (spec_named_init ctx reg (inits ! j)))"
      by (rule serialize_well_formed)
  qed
  have rendered: "compoundLiteralToNamedInit ctx reg qt (InitListExpr b e inits)
      = Inr (spec_render (spec_named_init ctx reg lit))"
    unfolding assms(1) by (rule literal_text[OF rec len vals])
  have shape: "spec_named_init ctx reg lit =
       Group (resolveTypeName ctx reg qt)
         (zip (record_fields qt) (map (spec_named_init ctx reg) inits))"
    by (simp add: assms(1))
  have depth: "group_depth (spec_named_init ctx reg lit) = literal_depth lit"
    using assms(2) by (rule group_depth_spec_named_init)
  have braces: "brace_depth (spec_render (spec_named_init ctx reg lit)) = Some (literal_depth lit)"
    if "brace_free_init (spec_named_init ctx reg lit)"
    using brace_depth_render[OF that] depth by simp
  from rendered shape vals depth braces show ?thesis by blast
qed

theorem nested_literal_rendering_witness:
  "well_formed_literal
     (CompoundLiteralExpr (RecordT Struct ''Outer'' [''inner'', ''id''])
        (InitListExpr 9 60
          [CompoundLiteralExpr (TypedefT ''Inner'' (RecordT Struct ''Inner'' [''p'', ''scale'']))
             (InitListExpr 18 50
               [ImplicitCastExpr 19 40
                  (CompoundLiteralExpr (TypedefT ''Point'' (RecordT Struct ''Point'' [''x'', ''y'']))
                     (InitListExpr 26 40 [IntegerLiteral 32 1, IntegerLiteral 32 2])),
                FloatingLiteral ''2.5E-1'']),
           IntegerLiteral 32 7])) \<and>
   compoundLiteralToNamedInit (example_context []) Map.empty
     (RecordT Struct ''Outer'' [''inner'', ''id''])
     (InitListExpr 9 60
          [CompoundLiteralExpr (TypedefT ''Inner'' (RecordT Struct ''Inner'' [''p'', ''scale'']))
             (InitListExpr 18 50
               [ImplicitCastExpr 19 40
                  (CompoundLiteralExpr (TypedefT ''Point'' (RecordT Struct ''Point'' [''x'', ''y'']))
                     (InitListExpr 26 40 [IntegerLiteral 32 1, IntegerLiteral 32 2])),
                FloatingLiteral ''2.5E-1'']),
           IntegerLiteral 32 7])
     = Inr ''struct Outer{inner=Inner{p=Point{x=1, y=2}, scale=2.5E-1}, id=7}'' \<and>
   literal_depth
     (CompoundLiteralExpr (RecordT Struct ''Outer'' [''inner'', ''id''])
        (InitListExpr 9 60
          [CompoundLiteralExpr (TypedefT ''Inner'' (RecordT Struct ''Inner'' [''p'', ''scale'']))
             (InitListExpr 18 50
               [ImplicitCastExpr 19 40
                  (CompoundLiteralExpr (TypedefT ''Point'' (RecordT Struct ''Point'' [''x'', ''y'']))
                     (InitListExpr 26 40 [IntegerLiteral 32 1, IntegerLiteral 32 2])),
                FloatingLiteral ''2.5E-1'']),
           IntegerLiteral 32 7])) = 3 \<and>
   brace_depth ''struct Outer{inner=Inner{p=Point{x=1, y=2}, scale=2.5E-1}, id=7}'' = Some 3"
  using nested_literal_rendering [where ctx = "example_context []" and reg = Map.empty
      and qt = "RecordT Struct ''Outer'' [''inner'', ''id'']" and b = 9 and e = 60
      and inits = "[CompoundLiteralExpr (TypedefT ''Inner'' (RecordT Struct ''Inner'' [''p'', ''scale'']))
             (InitListExpr 18 50
               [ImplicitCastExpr 19 40
                  (CompoundLiteralExpr (TypedefT ''Point'' (RecordT Struct ''Point'' [''x'', ''y'']))
                     (InitListExpr 26 40 [IntegerLiteral 32 1, IntegerLiteral 32 2])),
                FloatingLiteral ''2.5E-1'']),
           IntegerLiteral 32 7]", OF refl]
  by (simp add: literal_eval)

text \<open>
  C2 as stated fails outside those literals. A field whose value is a compound literal
  of a scalar type is written as the marker \<^verbatim>\<open><not a record>\<close>: the literal nests two
  deep and the text has one group. A union literal has one initializer and several
  declared members: the serializer reads past the initializer list and returns no text.
\<close>

theorem scalar_and_union_literals_break_nesting:
  "literal_depth
     (CompoundLiteralExpr (RecordT Struct ''Outer'' [''count'', ''id''])
        (InitListExpr 8 20
          [ImplicitCastExpr 9 16
             (CompoundLiteralExpr (BuiltinT IntK) (InitListExpr 14 16 [IntegerLiteral 32 5])),
           IntegerLiteral 32 7])) = 2 \<and>
   compoundLiteralToNamedInit (example_context []) Map.empty
     (RecordT Struct ''Outer'' [''count'', ''id''])
     (InitListExpr 8 20
          [ImplicitCastExpr 9 16
             (CompoundLiteralExpr (BuiltinT IntK) (InitListExpr 14 16 [IntegerLiteral 32 5])),
           IntegerLiteral 32 7])
     = Inr ''struct Outer{count=<not a record>, id=7}'' \<and>
   brace_depth ''struct Outer{count=<not a record>, id=7}'' = Some 1 \<and>
   literal_depth
     (CompoundLiteralExpr (TypedefT ''Data'' (RecordT Union ''Data'' [''i'', ''f'', ''str'']))
        (InitListExpr 7 9 [IntegerLiteral 32 1])) = 1 \<and>
   compoundLiteralToNamedInit (example_context []) Map.empty
     (TypedefT ''Data'' (RecordT Union ''Data'' [''i'', ''f'', ''str'']))
     (InitListExpr 7 9 [IntegerLiteral 32 1]) = Inl InitIndexOutOfRange"
  by (simp add: serializer_eval literal_eval)

section \<open>The evaluation entry point: unsupported input\<close>

lemma push_clang_args_take:
  "num_args \<le> length clang_args \<Longrightarrow> i \<le> num_args \<Longrightarrow>
   push_clang_args clang_args num_args i args
     = Inr (args @ take (num_args - i) (drop i clang_args))"
proof (induction clang_args num_args i args rule: push_clang_args.induct)
  case (1 clang_args num_args i args)
  show ?case
  proof (cases "i < num_args")
    case True
    with "1.prems" have il: "i < length clang_args" by simp
    from True have "Suc i \<le> num_args" by simp
    from "1.IH"[OF True il "1.prems"(1) this]
    have "push_clang_args clang_args num_args (Suc i) (args @ [clang_args ! i])
            = Inr ((args @ [clang_args ! i]) @ take (num_args - Suc i) (drop (Suc i) clang_args))" .
    moreover have "take (num_args - i) (drop i clang_args)
        = clang_args ! i # take (num_args - Suc i) (drop (Suc i) clang_args)"
    proof -
      have "drop i clang_args = clang_args ! i # drop (Suc i) clang_args"
        using il by (simp add: Cons_nth_drop_Suc)
      moreover from True obtain m where "num_args - i = Suc m" and "num_args - Suc i = m"
        by (cases "num_args - i") auto
      ultimately show ?thesis by simp
    qed
    ultimately show ?thesis using True il
      by (subst push_clang_args.simps) simp
  next
    case False
    then show ?thesis by (subst push_clang_args.simps) simp
  qed
qed

lemma scan_decls_no_literal:
  "(\<forall>vinit. VarDecl ''__dummy_var'' vinit \<in> set ds \<longrightarrow>
       (\<exists>e. vinit = Some e \<and> \<not> isa_CompoundLiteralExpr (IgnoreImpCasts e))) \<Longrightarrow>
   scan_decls ctx reg define_name ds = Inr None"
proof (induction ds)
  case Nil
  then show ?case by simp
next
  case (Cons d ds)
  from Cons.prems have rest: "scan_decls ctx reg define_name ds = Inr None"
    by (intro Cons.IH) auto
  show ?case
  proof (cases d)
    case OtherDecl
    with rest show ?thesis by simp
  next
    case (VarDecl name vinit)
    show ?thesis
    proof (cases "name = ''__dummy_var''")
      case False
      with VarDecl rest show ?thesis by simp
    next
      case True
      with Cons.prems VarDecl obtain e where
        e: "vinit = Some e" "\<not> isa_CompoundLiteralExpr (IgnoreImpCasts e)"
        by auto
      from e(2) rest show ?thesis
        unfolding VarDecl True e(1) by (cases "IgnoreImpCasts e") simp_all
    qed
  qed
qed

text \<open>
  C8. The entry point returns absence, and no fault, for a header path that begins with
  \<^verbatim>\<open><\<close> and ends with \<^verbatim>\<open>>\<close>, and, when the argument count is within the argument
  array, for a driver that returns no unit, for a unit without a declaration of the
  sentinel variable, and for a unit whose sentinel declarations all have an initializer
  that is not a compound literal once the implicit casts are removed.
\<close>

theorem unsupported_input_is_absent:
  "(is_system_header header_path \<longrightarrow>
      macro_to_named_initializer drv reg header_path define_name clang_args num_args = Inr None) \<and>
   (nat num_args \<le> length clang_args \<and>
    drv (synthetic_code header_path define_name)
        (initial_args header_path @ take (nat num_args) clang_args) ''macro_eval.c'' = None \<longrightarrow>
      macro_to_named_initializer drv reg header_path define_name clang_args num_args = Inr None) \<and>
   (nat num_args \<le> length clang_args \<and>
    drv (synthetic_code header_path define_name)
        (initial_args header_path @ take (nat num_args) clang_args) ''macro_eval.c'' = Some unit \<and>
    (\<forall>vinit. VarDecl ''__dummy_var'' vinit \<notin> set (decls unit)) \<longrightarrow>
      macro_to_named_initializer drv reg header_path define_name clang_args num_args = Inr None) \<and>
   (nat num_args \<le> length clang_args \<and>
    drv (synthetic_code header_path define_name)
        (initial_args header_path @ take (nat num_args) clang_args) ''macro_eval.c'' = Some unit \<and>
    (\<forall>vinit. VarDecl ''__dummy_var'' vinit \<in> set (decls unit) \<longrightarrow>
        (\<exists>e. vinit = Some e \<and> \<not> isa_CompoundLiteralExpr (IgnoreImpCasts e))) \<longrightarrow>
      macro_to_named_initializer drv reg header_path define_name clang_args num_args = Inr None)"
proof -
  have args: "push_clang_args clang_args (nat num_args) 0 (initial_args header_path)
      = Inr (initial_args header_path @ take (nat num_args) clang_args)"
    if "nat num_args \<le> length clang_args"
    using push_clang_args_take[OF that, of 0 "initial_args header_path"] by simp
  have absent: "scan_decls (getASTContext unit) reg define_name (decls unit) = Inr None"
    if "\<forall>vinit. VarDecl ''__dummy_var'' vinit \<notin> set (decls unit)"
    using that by (intro scan_decls_no_literal) simp
  show ?thesis
    using args absent scan_decls_no_literal[of "decls unit" "getASTContext unit" reg define_name]
    by (auto simp: macro_to_named_initializer_def)
qed

theorem unsupported_input_is_absent_witness:
  "macro_to_named_initializer
      (\<lambda>code args file. Some (example_unit [VarDecl ''__dummy_var'' (Some (IntegerLiteral 32 0))]))
      Map.empty ''<stdio.h>'' ''EOF'' [] 0 = Inr None \<and>
   macro_to_named_initializer (\<lambda>code args file. None)
      Map.empty ''include/header.h'' ''P'' [''-DX=1''] 1 = Inr None \<and>
   macro_to_named_initializer
      (\<lambda>code args file. Some (example_unit [OtherDecl, VarDecl ''origin'' None]))
      Map.empty ''header.h'' ''P'' [] 0 = Inr None \<and>
   macro_to_named_initializer
      (\<lambda>code args file. Some (example_unit
          [OtherDecl, VarDecl ''__dummy_var'' (Some (ImplicitCastExpr 27 28 (IntegerLiteral 32 42)))]))
      Map.empty ''header.h'' ''FORTY_TWO'' [] 0 = Inr None"
  using
    unsupported_input_is_absent [where header_path = "''<stdio.h>''" and define_name = "''EOF''"
      and drv = "\<lambda>code args file. Some (example_unit [VarDecl ''__dummy_var'' (Some (IntegerLiteral 32 0))])"
      and reg = Map.empty and clang_args = "[]" and num_args = 0]
    unsupported_input_is_absent [where header_path = "''include/header.h''" and define_name = "''P''"
      and drv = "\<lambda>code args file. None"
      and reg = Map.empty and clang_args = "[''-DX=1'']" and num_args = 1]
    unsupported_input_is_absent [where header_path = "''header.h''" and define_name = "''P''"
      and drv = "\<lambda>code args file. Some (example_unit [OtherDecl, VarDecl ''origin'' None])"
      and unit = "example_unit [OtherDecl, VarDecl ''origin'' None]"
      and reg = Map.empty and clang_args = "[]" and num_args = 0]
    unsupported_input_is_absent [where header_path = "''header.h''" and define_name = "''FORTY_TWO''"
      and drv = "\<lambda>code args file. Some (example_unit
          [OtherDecl, VarDecl ''__dummy_var'' (Some (ImplicitCastExpr 27 28 (IntegerLiteral 32 42)))])"
      and unit = "example_unit
          [OtherDecl, VarDecl ''__dummy_var'' (Some (ImplicitCastExpr 27 28 (IntegerLiteral 32 42)))]"
      and reg = Map.empty and clang_args = "[]" and num_args = 0]
  by (simp add: is_system_header_def example_unit_def)

text \<open>
  The two end-to-end scenarios that succeed, without and with an override, and a
  result cut at the zero character of a string literal.
\<close>

lemma end_to_end_point:
  "macro_to_named_initializer
      (\<lambda>code args file. Some (example_unit
          [OtherDecl,
           VarDecl ''__dummy_var'' (Some (ImplicitCastExpr 27 27
             (CompoundLiteralExpr (TypedefT ''Point'' (RecordT Struct ''Point'' [''x'', ''y'']))
                (InitListExpr 8 12 [IntegerLiteral 32 1, IntegerLiteral 32 2]))))]))
      Map.empty ''header.h'' ''P'' [] 0 = Inr (Some ''Point P = Point{x=1, y=2};'')"
  by (simp add: macro_to_named_initializer_def is_system_header_def push_clang_args.simps
        example_unit_def strcpy_text_def serializer_eval)

lemma end_to_end_point_renamed:
  "macro_to_named_initializer
      (\<lambda>code args file. Some (example_unit
          [OtherDecl,
           VarDecl ''__dummy_var'' (Some (ImplicitCastExpr 27 27
             (CompoundLiteralExpr (TypedefT ''Point'' (RecordT Struct ''Point'' [''x'', ''y'']))
                (InitListExpr 8 12 [IntegerLiteral 32 1, IntegerLiteral 32 2]))))]))
      [''c:struct Point'' \<mapsto> ''Vec2''] ''header.h'' ''P'' [] 0
     = Inr (Some ''Vec2 P = Vec2{x=1, y=2};'')"
  by (simp add: macro_to_named_initializer_def is_system_header_def push_clang_args.simps
        example_unit_def strcpy_text_def serializer_eval)

lemma end_to_end_embedded_zero:
  "macro_to_named_initializer
      (\<lambda>code args file. Some (example_unit
          [VarDecl ''__dummy_var'' (Some
             (CompoundLiteralExpr (TypedefT ''Tag'' (RecordT Struct ''Tag'' [''name'', ''id'']))
                (InitListExpr 6 20
                   [ImplicitCastExpr 7 13 (StringLiteral [CHR ''a'', CHR 0x00, CHR ''b'']),
                    IntegerLiteral 32 4])))]))
      Map.empty ''header.h'' ''T'' [] 0
     = Inr (Some (''Tag T = Tag{name='' @ [CHR 0x22, CHR ''a'']))"
  by (simp add: macro_to_named_initializer_def is_system_header_def push_clang_args.simps
        example_unit_def strcpy_text_def serializer_eval)

end
